theory Spec2Isabelle
  imports
    Complex_Main
    "HOL-Library.AList"
    "HOL-Library.Char_ord"
    "HOL-Library.List_Lexorder"
    "HOL-Library.Multiset"
begin

section \<open>Python values and builtins used by the dashboard callbacks\<close>

text \<open>
  The callbacks of \<^verbatim>\<open>cia_v1.py\<close> are Python functions over JSON-like values. An
  exception raised inside a callback aborts it; the model returns \<open>Inl\<close> of the
  exception's class in that case.
\<close>

datatype py_error = ValueError | TypeError | KeyError | IndexError

text \<open>Substring test \<^verbatim>\<open>needle in haystack\<close> on strings.\<close>

fun starts_with :: "string \<Rightarrow> string \<Rightarrow> bool" where
  "starts_with s [] = True"
| "starts_with [] (p # ps) = False"
| "starts_with (c # cs) (p # ps) = (c = p \<and> starts_with cs ps)"

fun py_in :: "string \<Rightarrow> string \<Rightarrow> bool" where
  "py_in needle [] = (needle = [])"
| "py_in needle (c # cs) = (starts_with (c # cs) needle \<or> py_in needle cs)"

text \<open>
  \<^verbatim>\<open>s.split(sep)\<close> for a one-character separator: every occurrence splits, so
  the result has one piece more than there are separators.
\<close>

fun py_split :: "char \<Rightarrow> string \<Rightarrow> string list" where
  "py_split sep [] = [[]]"
| "py_split sep (c # cs) =
     (case py_split sep cs of
        [] \<Rightarrow> [[c]]
      | p # ps \<Rightarrow> (if c = sep then [] # p # ps else (c # p) # ps))"

text \<open>List indexing \<^verbatim>\<open>xs[i]\<close> with a non-negative literal index.\<close>

definition py_index :: "'a list \<Rightarrow> nat \<Rightarrow> py_error + 'a" where
  "py_index xs i = (if i < length xs then Inr (xs ! i) else Inl IndexError)"

text \<open>
  \<^verbatim>\<open>int(text)\<close>: surrounding white space is stripped, one sign is allowed, then
  decimal digits follow, with single underscores allowed between digits. Anything
  else raises \<^verbatim>\<open>ValueError\<close>. Characters are read as Latin-1 code points.
\<close>

definition py_isspace :: "char \<Rightarrow> bool" where
  "py_isspace c =
     ((of_char c :: nat) \<in> set [9, 10, 11, 12, 13, 28, 29, 30, 31, 32, 133, 160])"

definition py_strip :: "string \<Rightarrow> string" where
  "py_strip s = rev (dropWhile py_isspace (rev (dropWhile py_isspace s)))"

definition digit_of :: "char \<Rightarrow> nat option" where
  "digit_of c =
     (let n = (of_char c :: nat) in if 48 \<le> n \<and> n \<le> 57 then Some (n - 48) else None)"

fun py_digits :: "nat \<Rightarrow> string \<Rightarrow> nat option" where
  "py_digits acc [] = Some acc"
| "py_digits acc [c] =
     (case digit_of c of None \<Rightarrow> None | Some v \<Rightarrow> Some (10 * acc + v))"
| "py_digits acc (c # d # ds) =
     (if c = CHR ''_'' then
        (case digit_of d of None \<Rightarrow> None | Some v \<Rightarrow> py_digits (10 * acc + v) ds)
      else
        (case digit_of c of None \<Rightarrow> None | Some v \<Rightarrow> py_digits (10 * acc + v) (d # ds)))"

definition py_unsigned :: "string \<Rightarrow> nat option" where
  "py_unsigned s =
     (case s of
        [] \<Rightarrow> None
      | c # cs \<Rightarrow> (case digit_of c of None \<Rightarrow> None | Some v \<Rightarrow> py_digits v cs))"

definition py_int_text :: "string \<Rightarrow> py_error + int" where
  "py_int_text s =
     (let t = py_strip s;
          r = (case t of
                 [] \<Rightarrow> None
               | c # cs \<Rightarrow>
                   if c = CHR ''-'' then map_option (\<lambda>n. - int n) (py_unsigned cs)
                   else if c = CHR ''+'' then map_option int (py_unsigned cs)
                   else map_option int (py_unsigned t))
      in case r of None \<Rightarrow> Inl ValueError | Some n \<Rightarrow> Inr n)"

section \<open>The Top-N input of the ranking\<close>

text \<open>
  The value of the \<^verbatim>\<open>topn\<close> input as the callback receives it: \<^verbatim>\<open>None\<close>, a JSON
  number (an integer or a finite float, both read as a real) or a text.
\<close>

datatype topn_input = TopnNone | TopnNum real | TopnText string

text \<open>Python truthiness: \<^verbatim>\<open>None\<close>, zero and the empty text are falsy.\<close>

fun topn_truthy :: "topn_input \<Rightarrow> bool" where
  "topn_truthy TopnNone = False"
| "topn_truthy (TopnNum x) = (x \<noteq> 0)"
| "topn_truthy (TopnText s) = (s \<noteq> [])"

text \<open>\<^verbatim>\<open>int(x)\<close>: a number is truncated towards zero, a text is parsed.\<close>

definition py_trunc :: "real \<Rightarrow> int" where
  "py_trunc x = (if 0 \<le> x then \<lfloor>x\<rfloor> else \<lceil>x\<rceil>)"

fun py_int :: "topn_input \<Rightarrow> py_error + int" where
  "py_int TopnNone = Inl TypeError"
| "py_int (TopnNum x) = Inr (py_trunc x)"
| "py_int (TopnText s) = py_int_text s"

text \<open>\<^verbatim>\<open>topn = max(3, min(50, int(topn or 10)))\<close>\<close>

definition effective_topn :: "topn_input \<Rightarrow> py_error + int" where
  "effective_topn topn =
     (case py_int (if topn_truthy topn then topn else TopnNum 10) of
        Inl e \<Rightarrow> Inl e
      | Inr n \<Rightarrow> Inr (max 3 (min 50 n)))"

section \<open>The country table\<close>

text \<open>
  A row of the loaded table: the harmonised name and the ISO-3 code (never missing
  after loading), the continent (may be missing) and the indicator cells. A cell
  that is absent from \<open>vals\<close> is a missing value (NaN).
\<close>

record row =
  country_fixed :: string
  iso_alpha :: string
  continent :: "string option"
  vals :: "(string \<times> real) list"

definition cell :: "row \<Rightarrow> string \<Rightarrow> real option" where
  "cell r c = map_of (vals r) c"

text \<open>
  \<^verbatim>\<open>if region and region != "All": base = base[base["continent"] == region]\<close>
\<close>

definition region_filter :: "string option \<Rightarrow> row list \<Rightarrow> row list" where
  "region_filter region df =
     (case region of
        None \<Rightarrow> df
      | Some g \<Rightarrow> if g \<noteq> [] \<and> g \<noteq> ''All'' then filter (\<lambda>r. continent r = Some g) df else df)"

text \<open>
  \<^verbatim>\<open>sort_values(key, ascending=False)\<close> uses an unstable sort, so the order of rows
  with equal keys is not determined. The sorting routine is therefore a parameter
  of the model; \<open>sorts_descending\<close> says what every such routine guarantees, and
  \<open>stable_sort_desc\<close> is one of them.
\<close>

definition sorts_descending :: "(('a \<Rightarrow> 'k::linorder) \<Rightarrow> 'a list \<Rightarrow> 'a list) \<Rightarrow> bool" where
  "sorts_descending srt =
     (\<forall>key xs. mset (srt key xs) = mset xs \<and> sorted_wrt (\<lambda>a b. key b \<le> key a) (srt key xs))"

definition stable_sort_desc :: "('a \<Rightarrow> 'k::linorder) \<Rightarrow> 'a list \<Rightarrow> 'a list" where
  "stable_sort_desc key xs = rev (sort_key key (rev xs))"

text \<open>
  The ranking frame:
  \<^verbatim>\<open>base[["_country_fixed", "iso_alpha", ind]].dropna().sort_values(ind, ascending=False).head(topn)\<close>.
  The indicator is the name of an indicator column (the dropdown offers no other
  name); selecting a column that the table does not have raises \<^verbatim>\<open>KeyError\<close>.
\<close>

definition bar_df ::
  "((row \<Rightarrow> real) \<Rightarrow> row list \<Rightarrow> row list) \<Rightarrow> row list \<Rightarrow> string list \<Rightarrow> string \<Rightarrow> int
     \<Rightarrow> py_error + row list" where
  "bar_df srt base num_cols ind n =
     (if ind \<in> set num_cols
      then Inr (take (nat n) (srt (\<lambda>r. the (cell r ind)) (filter (\<lambda>r. cell r ind \<noteq> None) base)))
      else Inl KeyError)"

text \<open>
  One pass of the \<^verbatim>\<open>if build_rank:\<close> block: the Top-N value is replaced by the
  clamped integer and the ranking frame is built with it.
\<close>

definition rank_block ::
  "((row \<Rightarrow> real) \<Rightarrow> row list \<Rightarrow> row list) \<Rightarrow> row list \<Rightarrow> string list \<Rightarrow> string
     \<Rightarrow> topn_input \<Rightarrow> py_error + (int \<times> row list)" where
  "rank_block srt base num_cols ind topn =
     (case effective_topn topn of
        Inl e \<Rightarrow> Inl e
      | Inr n \<Rightarrow> (case bar_df srt base num_cols ind n of
                   Inl e \<Rightarrow> Inl e
                 | Inr rows \<Rightarrow> Inr (n, rows)))"

section \<open>Brush constraints of the parallel-coordinates plot\<close>

text \<open>
  The \<^verbatim>\<open>pc-brush\<close> store is a dictionary from indicator name to the stored range, a
  list of numbers. It is kept as an association list in insertion order:
  \<open>AList.update\<close> overwrites in place or appends, \<open>AList.delete\<close> removes the key.
\<close>

type_synonym brush = "(string \<times> real list) list"

text \<open>
  A value of the \<^verbatim>\<open>restyleData\<close> dictionary: \<^verbatim>\<open>None\<close>, a flat list of numbers, a
  list of lists of numbers, or anything else.
\<close>

datatype restyle_value = VNone | VList "real list" | VNested "real list list" | VOther

text \<open>
  The restyle payload is \<^verbatim>\<open>pc_restyle[0]\<close> when \<^verbatim>\<open>pc_restyle\<close> is a non-empty list
  whose first element is a dictionary, given by its items; \<open>None\<close> stands for every
  other value of \<^verbatim>\<open>pc_restyle\<close> (no items are read then).
\<close>

type_synonym restyle = "(string \<times> restyle_value) list option"

text \<open>\<^verbatim>\<open>use_cols = [c for c in num_cols if c != "iso_alpha"]\<close>\<close>

definition use_cols_of :: "string list \<Rightarrow> string list" where
  "use_cols_of num_cols = filter (\<lambda>c. c \<noteq> ''iso_alpha'') num_cols"

text \<open>\<^verbatim>\<open>idx = int(k.split("[")[1].split("]")[0])\<close>\<close>

definition restyle_index :: "string \<Rightarrow> py_error + int" where
  "restyle_index k =
     (case py_index (py_split CHR ''['' k) 1 of
        Inl e \<Rightarrow> Inl e
      | Inr p \<Rightarrow> (case py_index (py_split CHR '']'' p) 0 of
                   Inl e \<Rightarrow> Inl e
                 | Inr q \<Rightarrow> py_int_text q))"

text \<open>
  The body of the loop over the payload's items. Any exception inside is caught
  and the item is skipped.
\<close>

definition apply_restyle_item :: "string list \<Rightarrow> string \<times> restyle_value \<Rightarrow> brush \<Rightarrow> brush" where
  "apply_restyle_item use_cols kv b =
     (case kv of (k, v) \<Rightarrow>
        if py_in ''dimensions'' k \<and> py_in ''constraintrange'' k then
          (case restyle_index k of
             Inl e \<Rightarrow> b
           | Inr idx \<Rightarrow>
               if 0 \<le> idx \<and> idx < int (length use_cols) then
                 (let col_name = use_cols ! nat idx in
                    case v of
                      VNone \<Rightarrow> AList.delete col_name b
                    | VList xs \<Rightarrow>
                        if xs = [] then AList.delete col_name b else AList.update col_name xs b
                    | VNested xss \<Rightarrow>
                        (case xss of
                           [] \<Rightarrow> AList.delete col_name b
                         | xs # rest \<Rightarrow> AList.update col_name xs b)
                    | VOther \<Rightarrow> b)
               else b)
        else b)"

definition parse_brush :: "string list \<Rightarrow> restyle \<Rightarrow> brush \<Rightarrow> brush" where
  "parse_brush use_cols pc_restyle b =
     (case pc_restyle of
        None \<Rightarrow> b
      | Some items \<Rightarrow> fold (apply_restyle_item use_cols) items b)"

text \<open>
  The brush state that \<^verbatim>\<open>analytics\<close> computes and returns for the \<^verbatim>\<open>pc-brush\<close>
  store: the stored state with the payload folded in, or the empty dictionary when
  the reset button triggered the pass.
\<close>

definition new_brush_state :: "string list \<Rightarrow> restyle \<Rightarrow> string option \<Rightarrow> brush \<Rightarrow> brush" where
  "new_brush_state num_cols pc_restyle trigger pc_brush_state =
     (if trigger = Some ''reset-parcoords'' then []
      else parse_brush (use_cols_of num_cols) pc_restyle pc_brush_state)"

text \<open>
  \<^verbatim>\<open>(sub[col] >= lo) & (sub[col] <= hi)\<close> for one row, with
  \<^verbatim>\<open>lo, hi = float(rng[0]), float(rng[1])\<close>: a comparison with a missing value is
  false.
\<close>

definition in_range :: "row \<Rightarrow> string \<Rightarrow> real list \<Rightarrow> bool" where
  "in_range r col rng =
     (case cell r col of None \<Rightarrow> False | Some v \<Rightarrow> rng ! 0 \<le> v \<and> v \<le> rng ! 1)"

text \<open>
  The mask loop of \<^verbatim>\<open>analytics\<close>. A range that is not a list of two numbers is
  skipped. Indexing \<^verbatim>\<open>sub\<close> by a name that is not one of its columns raises
  \<^verbatim>\<open>KeyError\<close>; comparing one of its two text columns with a number raises
  \<^verbatim>\<open>TypeError\<close>.
\<close>

fun brushed_mask :: "string list \<Rightarrow> row list \<Rightarrow> brush \<Rightarrow> bool list \<Rightarrow> py_error + bool list" where
  "brushed_mask use_cols sub_df [] msk = Inr msk"
| "brushed_mask use_cols sub_df ((col, rng) # rest) msk =
     (if length rng = 2 then
        (if col \<in> set use_cols then
           brushed_mask use_cols sub_df rest
             (map2 (\<and>) msk (map (\<lambda>r. in_range r col rng) sub_df))
         else if col \<in> set [''_country_fixed'', ''iso_alpha''] then Inl TypeError
         else Inl KeyError)
      else brushed_mask use_cols sub_df rest msk)"

text \<open>
  The mask loop of \<^verbatim>\<open>update_countries_tab\<close>: a constraint is applied when its key
  is a column of \<^verbatim>\<open>sub\<close> and its range has two entries; the \<^verbatim>\<open>TypeError\<close> of a
  text column is caught and the constraint skipped.
\<close>

fun tab_mask :: "string list \<Rightarrow> row list \<Rightarrow> brush \<Rightarrow> bool list \<Rightarrow> bool list" where
  "tab_mask use_cols sub_df [] msk = msk"
| "tab_mask use_cols sub_df ((col, rng) # rest) msk =
     (if col \<in> set use_cols \<and> length rng = 2 then
        tab_mask use_cols sub_df rest (map2 (\<and>) msk (map (\<lambda>r. in_range r col rng) sub_df))
      else tab_mask use_cols sub_df rest msk)"

text \<open>\<^verbatim>\<open>sub.loc[brushed_mask]\<close>\<close>

definition select_rows :: "row list \<Rightarrow> bool list \<Rightarrow> row list" where
  "select_rows sub_df msk = map fst (filter snd (zip sub_df msk))"

text \<open>
  \<^verbatim>\<open>base[["_country_fixed", "iso_alpha"] + use_cols].dropna()\<close>: a row stays when
  none of the selected cells is missing (name and ISO-3 code never are).
\<close>

definition dropna_rows :: "string list \<Rightarrow> row list \<Rightarrow> row list" where
  "dropna_rows cols base = filter (\<lambda>r. list_all (\<lambda>c. cell r c \<noteq> None) cols) base"

section \<open>The analytics callback\<close>

text \<open>
  The data fixed at start-up: the sorting routine behind \<^verbatim>\<open>sort_values\<close>, the loaded
  table \<^verbatim>\<open>loaded[ds]["df"]\<close>, its indicator columns \<^verbatim>\<open>loaded[ds]["num_cols"]\<close> (each
  of them a numeric column of the table) and the dictionary \<^verbatim>\<open>ISO_TO_NAME\<close>.
\<close>

record dashboard =
  sorter :: "(row \<Rightarrow> real) \<Rightarrow> row list \<Rightarrow> row list"
  df :: "row list"
  num_cols :: "string list"
  ISO_TO_NAME :: "(string \<times> string) list"

text \<open>
  One axis of the parallel-coordinates figure (its label is the column name in
  display form) and the figure itself.
\<close>

record pc_dim =
  dim_col :: string
  dim_values :: "real list"
  dim_range :: "real \<times> real"
  dim_constraintrange :: "real list option"

record parcoords_fig =
  line_color :: "nat list"
  dimensions :: "pc_dim list"

definition dim_config :: "row list \<Rightarrow> brush \<Rightarrow> string \<Rightarrow> pc_dim" where
  "dim_config sub_df nb c =
     (let vs = map (\<lambda>r. the (cell r c)) sub_df in
        \<lparr>dim_col = c,
         dim_values = vs,
         dim_range = (fold min (tl vs) (hd vs), fold max (tl vs) (hd vs)),
         dim_constraintrange =
           (case map_of nb c of
              None \<Rightarrow> None
            | Some rng \<Rightarrow> if length rng = 2 then Some rng else None)\<rparr>)"

text \<open>The bullet that prefixes a listed country, in UTF-8, and a blank.\<close>

definition bullet :: string where
  "bullet = [CHR 0xE2, CHR 0x80, CHR 0xA2, CHR 0x20]"

text \<open>\<^verbatim>\<open>any(new_brush_state.values())\<close>: some stored range is a non-empty list.\<close>

definition any_values :: "brush \<Rightarrow> bool" where
  "any_values nb = list_ex (\<lambda>kv. snd kv \<noteq> []) nb"

text \<open>
  The parallel-coordinates part of \<^verbatim>\<open>analytics\<close>: the figure (\<open>None\<close> is the empty
  figure) and the local list \<^verbatim>\<open>brush_names\<close>.
\<close>

definition parcoords_block ::
  "row list \<Rightarrow> string list \<Rightarrow> string list \<Rightarrow> brush
     \<Rightarrow> py_error + (parcoords_fig option \<times> string list)" where
  "parcoords_block base use_cols sel nb =
     (if 2 \<le> length use_cols then
        (let sub_df = dropna_rows use_cols base in
           if sub_df \<noteq> [] then
             (case brushed_mask use_cols sub_df nb (replicate (length sub_df) True) of
                Inl e \<Rightarrow> Inl e
              | Inr msk \<Rightarrow>
                  Inr (Some \<lparr>line_color =
                               map (\<lambda>r. if iso_alpha r \<in> set sel then 1 else 0) sub_df,
                             dimensions = map (dim_config sub_df nb) use_cols\<rparr>,
                       if list_ex (\<lambda>b. b) msk \<and> any_values nb
                       then map (\<lambda>r. bullet @ country_fixed r) (take 40 (select_rows sub_df msk))
                       else []))
           else Inr (None, []))
      else Inr (None, []))"

text \<open>
  \<^verbatim>\<open>brush_list\<close>, the last local value of \<^verbatim>\<open>analytics\<close>: the heading with the
  brushed names, or the prompt \<^verbatim>\<open>"Brush on axes to see selected countries."\<close>. The
  callback assigns it and does not put it into its return value.
\<close>

datatype brush_report = BrushPrompt | BrushedCountries "string list"

definition brush_list :: "string list \<Rightarrow> brush_report" where
  "brush_list brush_names =
     (if brush_names \<noteq> [] then BrushedCountries (''Brushed countries:'' # brush_names)
      else BrushPrompt)"

text \<open>
  \<^verbatim>\<open>build_rank = not trigger_id or any(x in trigger_id for x in rank_inputs)\<close>
\<close>

definition rank_inputs :: "string list" where
  "rank_inputs = [''ind'', ''topn'', ''region'', ''selected-iso'', ''selected-iso-store'']"

definition build_rank :: "string option \<Rightarrow> bool" where
  "build_rank trigger =
     (case trigger of
        None \<Rightarrow> True
      | Some t \<Rightarrow> t = [] \<or> list_ex (\<lambda>x. py_in x t) rank_inputs)"

text \<open>
  What \<^verbatim>\<open>analytics\<close> returns, as far as the ranking, the parallel coordinates and
  the \<^verbatim>\<open>pc-brush\<close> store go (\<open>rank_fig = None\<close> is \<^verbatim>\<open>no_update\<close>; the colours of the
  bars, the scatter figure and the heading are left out). The last field is the
  local \<^verbatim>\<open>brush_list\<close> at the end of the pass, \<open>None\<close> when the pass returns before
  assigning it; it is not part of the returned tuple.
\<close>

record analytics_out =
  rank_fig :: "row list option"
  parcoords_out :: "parcoords_fig option"
  pc_brush_out :: brush
  local_brush_list :: "brush_report option"

definition py_falsy_text :: "string option \<Rightarrow> bool" where
  "py_falsy_text x = (x = None \<or> x = Some [])"

text \<open>
  The callback. The ranking block occurs twice in the source; the second pass
  reads the Top-N value that the first one has already clamped.
\<close>

definition analytics ::
  "dashboard \<Rightarrow> string option \<Rightarrow> string option \<Rightarrow> topn_input \<Rightarrow> restyle \<Rightarrow> string option
     \<Rightarrow> string list \<Rightarrow> brush \<Rightarrow> py_error + analytics_out" where
  "analytics d ind region topn pc_restyle trigger selected_iso_store pc_brush_state =
     (if py_falsy_text ind
      then Inr \<lparr>rank_fig = Some [], parcoords_out = None, pc_brush_out = [],
                local_brush_list = None\<rparr>
      else
        (let base = region_filter region (df d);
             rank =
               (if build_rank trigger then
                  (case rank_block (sorter d) base (num_cols d) (the ind) topn of
                     Inl e \<Rightarrow> Inl e
                   | Inr (n, rows) \<Rightarrow>
                       (case rank_block (sorter d) base (num_cols d) (the ind)
                               (TopnNum (of_int n)) of
                          Inl e \<Rightarrow> Inl e
                        | Inr (n', rows') \<Rightarrow> Inr (Some rows')))
                else Inr None);
             nb = new_brush_state (num_cols d) pc_restyle trigger pc_brush_state
         in case rank of
              Inl e \<Rightarrow> Inl e
            | Inr rfig \<Rightarrow>
                (case parcoords_block base (use_cols_of (num_cols d)) selected_iso_store nb of
                   Inl e \<Rightarrow> Inl e
                 | Inr (pfig, brush_names) \<Rightarrow>
                     Inr \<lparr>rank_fig = rfig, parcoords_out = pfig, pc_brush_out = nb,
                          local_brush_list = Some (brush_list brush_names)\<rparr>)))"

section \<open>The countries tab\<close>

datatype tab_item =
    SelectedCountries "string list"
  | SelectedCountry string
  | BrushedHeader
  | BrushedTable "(row \<times> bool) list"
  | BrushedSummary nat nat
  | NoSelectionPrompt

text \<open>\<^verbatim>\<open>Series.unique()\<close>: the values in the order of their first occurrence.\<close>

definition py_unique :: "'a list \<Rightarrow> 'a list" where
  "py_unique xs = rev (remdups (rev xs))"

text \<open>The selected countries shown at the top of the tab.\<close>

definition tab_selected :: "row list \<Rightarrow> string option \<Rightarrow> string list option \<Rightarrow> tab_item list" where
  "tab_selected base selected_iso selected_iso_store =
     (case selected_iso_store of
        Some sel_isos \<Rightarrow>
          (if sel_isos \<noteq> [] then
             (let sel_rows =
                    py_unique (map country_fixed (filter (\<lambda>r. iso_alpha r \<in> set sel_isos) base))
              in if sel_rows \<noteq> [] then [SelectedCountries sel_rows] else [])
           else [])
      | None \<Rightarrow>
          (if py_falsy_text selected_iso then []
           else (case filter (\<lambda>r. iso_alpha r = the selected_iso) base of
                   [] \<Rightarrow> []
                 | r # rest \<Rightarrow> [SelectedCountry (country_fixed r)])))"

text \<open>
  \<^verbatim>\<open>base[["_country_fixed", "iso_alpha", "continent"] + use_cols].dropna()\<close>
\<close>

definition tab_sub :: "row list \<Rightarrow> string list \<Rightarrow> row list" where
  "tab_sub base use_cols = filter (\<lambda>r. continent r \<noteq> None) (dropna_rows use_cols base)"

text \<open>
  The brushed part of the tab. When the multi-select store is \<^verbatim>\<open>None\<close> the name
  \<^verbatim>\<open>sel_isos\<close> is unbound in the row loop; the \<^verbatim>\<open>NameError\<close> is caught after the
  header has been appended.
\<close>

definition tab_brushed :: "row list \<Rightarrow> string list \<Rightarrow> string list option \<Rightarrow> brush \<Rightarrow> tab_item list" where
  "tab_brushed base use_cols selected_iso_store pc_brush_state =
     (if pc_brush_state \<noteq> [] then
        (let sub_df = tab_sub base use_cols in
           if sub_df \<noteq> [] then
             (let msk = tab_mask use_cols sub_df pc_brush_state (replicate (length sub_df) True)
              in if list_ex (\<lambda>b. b) msk then
                   (let brushed = select_rows sub_df msk; brushed_df = take 40 brushed
                    in case selected_iso_store of
                         None \<Rightarrow> [BrushedHeader]
                       | Some sel_isos \<Rightarrow>
                           [BrushedHeader,
                            BrushedTable (map (\<lambda>r. (r, iso_alpha r \<in> set sel_isos)) brushed_df),
                            BrushedSummary (length brushed_df) (length brushed)])
                 else [])
           else [])
      else [])"

definition update_countries_tab ::
  "dashboard \<Rightarrow> string option \<Rightarrow> string list option \<Rightarrow> brush \<Rightarrow> string option \<Rightarrow> tab_item list" where
  "update_countries_tab d selected_iso selected_iso_store pc_brush_state region =
     (let base = region_filter region (df d);
          result = tab_selected base selected_iso selected_iso_store
                   @ tab_brushed base (use_cols_of (num_cols d)) selected_iso_store pc_brush_state
      in if result = [] then [NoSelectionPrompt] else result)"

section \<open>Click highlighting\<close>

text \<open>
  A click payload is \<^verbatim>\<open>None\<close> or a dictionary with the list \<^verbatim>\<open>points\<close>; the first
  point carries \<^verbatim>\<open>location\<close> (map) or \<^verbatim>\<open>customdata\<close> (scatter, rank, PCA), which is
  absent, a text or a list of texts.
\<close>

datatype customdata = CdNone | CdText string | CdList "string list"

record point =
  location :: "string option"
  customdata :: customdata

type_synonym click = "point list option"

text \<open>The first \<^verbatim>\<open>if\<close>/\<^verbatim>\<open>elif\<close> chain of \<^verbatim>\<open>sync_highlights\<close>: the value of \<^verbatim>\<open>iso\<close>.\<close>

definition clicked_iso ::
  "string option \<Rightarrow> click \<Rightarrow> click \<Rightarrow> click \<Rightarrow> click \<Rightarrow> py_error + customdata" where
  "clicked_iso trigger map_click scatter_click rank_click pca_click =
     (if trigger = Some ''map'' \<and> map_click \<noteq> None then
        (case py_index (the map_click) 0 of
           Inl e \<Rightarrow> Inl e
         | Inr p \<Rightarrow> Inr (case location p of None \<Rightarrow> CdNone | Some s \<Rightarrow> CdText s))
      else if trigger = Some ''scatter'' \<and> scatter_click \<noteq> None then
        (case py_index (the scatter_click) 0 of
           Inl e \<Rightarrow> Inl e
         | Inr p \<Rightarrow> Inr (customdata p))
      else if trigger = Some ''rank'' \<and> rank_click \<noteq> None then
        (case py_index (the rank_click) 0 of
           Inl e \<Rightarrow> Inl e
         | Inr p \<Rightarrow> Inr (case customdata p of
                          CdList (x # xs) \<Rightarrow> CdText x
                        | cd \<Rightarrow> cd))
      else if trigger = Some ''pca'' \<and> pca_click \<noteq> None then
        (case py_index (the pca_click) 0 of
           Inl e \<Rightarrow> Inl e
         | Inr p \<Rightarrow> Inr (customdata p))
      else Inr CdNone)"

text \<open>
  The toggle on the two sets and the sorted lists that are returned. The sets
  \<^verbatim>\<open>set(prev_names or [])\<close> and \<^verbatim>\<open>set(prev_iso or [])\<close> are kept as duplicate-free
  lists.
\<close>

definition toggle_iso ::
  "(string \<times> string) list \<Rightarrow> string \<Rightarrow> string list \<Rightarrow> string list \<Rightarrow> string list \<times> string list" where
  "toggle_iso iso_to_name iso3 names isos =
     (if iso3 \<in> set isos then
        (case map_of iso_to_name iso3 of
           None \<Rightarrow> names
         | Some nm \<Rightarrow> removeAll nm names,
         removeAll iso3 isos)
      else
        (case map_of iso_to_name iso3 of
           None \<Rightarrow> names
         | Some nm \<Rightarrow> if nm \<noteq> [] then List.insert nm names else names,
         List.insert iso3 isos))"

definition sync_highlights ::
  "(string \<times> string) list \<Rightarrow> string option \<Rightarrow> click \<Rightarrow> click \<Rightarrow> click \<Rightarrow> click
     \<Rightarrow> string list \<Rightarrow> string list \<Rightarrow> py_error + (string list \<times> string list)" where
  "sync_highlights iso_to_name trigger map_click scatter_click rank_click pca_click
       prev_names prev_iso =
     (let names = remdups prev_names; isos = remdups prev_iso in
        case clicked_iso trigger map_click scatter_click rank_click pca_click of
          Inl e \<Rightarrow> Inl e
        | Inr CdNone \<Rightarrow> Inr (sort names, sort isos)
        | Inr (CdList xs) \<Rightarrow> if xs = [] then Inr (sort names, sort isos) else Inl TypeError
        | Inr (CdText iso3) \<Rightarrow>
            if iso3 = [] then Inr (sort names, sort isos)
            else (case toggle_iso iso_to_name iso3 names isos of
                    (names', isos') \<Rightarrow> Inr (sort names', sort isos')))"

text \<open>
  The click events: the component named by the trigger delivers a payload whose
  first point carries the ISO-3 code \<open>i\<close> (the map in \<^verbatim>\<open>location\<close>, the others in
  \<^verbatim>\<open>customdata\<close>, the ranking bars also as the head of a list).
\<close>

definition click_carries ::
  "string option \<Rightarrow> click \<Rightarrow> click \<Rightarrow> click \<Rightarrow> click \<Rightarrow> string \<Rightarrow> bool" where
  "click_carries trigger map_click scatter_click rank_click pca_click i =
     (case trigger of
        None \<Rightarrow> False
      | Some t \<Rightarrow>
          if t = ''map'' then
            (case map_click of Some (p # ps) \<Rightarrow> location p = Some i | _ \<Rightarrow> False)
          else if t = ''scatter'' then
            (case scatter_click of Some (p # ps) \<Rightarrow> customdata p = CdText i | _ \<Rightarrow> False)
          else if t = ''rank'' then
            (case rank_click of
               Some (p # ps) \<Rightarrow>
                 (case customdata p of
                    CdText x \<Rightarrow> x = i
                  | CdList xs \<Rightarrow> (case xs of [] \<Rightarrow> False | x # rest \<Rightarrow> x = i)
                  | CdNone \<Rightarrow> False)
             | _ \<Rightarrow> False)
          else if t = ''pca'' then
            (case pca_click of Some (p # ps) \<Rightarrow> customdata p = CdText i | _ \<Rightarrow> False)
          else False)"

section \<open>Selection state and the events that change it\<close>

text \<open>
  The three stores of the selection state together with the inputs that the
  callbacks read: the region, the indicator, the Top-N value and the last restyle
  payload of the parallel-coordinates plot.
\<close>

record ui_state =
  highlight_country_names :: "string list"
  selected_iso_store :: "string list"
  pc_brush :: brush
  region_value :: "string option"
  ind_value :: "string option"
  topn_value :: topn_input
  restyleData :: restyle


text \<open>
  A store is written by the callbacks that list it as an output: \<^verbatim>\<open>pc-brush\<close> by
  \<^verbatim>\<open>analytics\<close> only, the two highlight stores by \<^verbatim>\<open>sync_highlights\<close> only. A callback
  that raises writes nothing.
\<close>

definition run_analytics :: "dashboard \<Rightarrow> string \<Rightarrow> ui_state \<Rightarrow> ui_state" where
  "run_analytics d trigger st =
     (case analytics d (ind_value st) (region_value st) (topn_value st) (restyleData st)
             (Some trigger) (selected_iso_store st) (pc_brush st) of
        Inl e \<Rightarrow> st
      | Inr out \<Rightarrow> st\<lparr>pc_brush := pc_brush_out out\<rparr>)"

definition reset_event :: "dashboard \<Rightarrow> ui_state \<Rightarrow> ui_state" where
  "reset_event d st = run_analytics d ''reset-parcoords'' st"


section \<open>Loading: duplicate ISO-3 codes\<close>

text \<open>
  A row of the frame during loading: the country name and its harmonised form
  (texts, never missing), the ISO-3 code and the continent (may be missing) and
  the cells of the remaining columns, \<open>None\<close> for a missing one.
\<close>

record 'c loaded_row =
  raw_country :: string
  raw_country_fixed :: string
  raw_iso_alpha :: "string option"
  raw_continent :: "string option"
  raw_cells :: "'c option list"

text \<open>\<^verbatim>\<open>df["_data_count"] = df.notna().sum(axis=1)\<close>\<close>

definition data_count :: "'c loaded_row \<Rightarrow> nat" where
  "data_count r =
     2 + (if raw_iso_alpha r = None then 0 else 1) + (if raw_continent r = None then 0 else 1)
       + length (filter (\<lambda>c. c \<noteq> None) (raw_cells r))"

text \<open>\<^verbatim>\<open>drop_duplicates(subset=["iso_alpha"])\<close>: the first row of each code stays.\<close>

fun drop_duplicates_iso :: "'c loaded_row list \<Rightarrow> 'c loaded_row list" where
  "drop_duplicates_iso [] = []"
| "drop_duplicates_iso (r # rs) =
     r # drop_duplicates_iso (filter (\<lambda>q. raw_iso_alpha q \<noteq> raw_iso_alpha r) rs)"

text \<open>
  \<^verbatim>\<open>df = df.dropna(subset=["iso_alpha"])\<close>, then the count, the descending sort and
  the removal of duplicates.
\<close>

definition dedup_by_data_count ::
  "(('c loaded_row \<Rightarrow> nat) \<Rightarrow> 'c loaded_row list \<Rightarrow> 'c loaded_row list)
     \<Rightarrow> 'c loaded_row list \<Rightarrow> 'c loaded_row list" where
  "dedup_by_data_count srt rows =
     drop_duplicates_iso (srt data_count (filter (\<lambda>r. raw_iso_alpha r \<noteq> None) rows))"

text \<open>
  The older copy of the program kept in the repository (\<^verbatim>\<open>cia_v1 copy.py\<close>) removes
  the duplicates without the sort:
  \<^verbatim>\<open>df.dropna(subset=["iso_alpha"]).drop_duplicates(subset=["iso_alpha"])\<close>.
\<close>

definition dedup_first_seen :: "'c loaded_row list \<Rightarrow> 'c loaded_row list" where
  "dedup_first_seen rows = drop_duplicates_iso (filter (\<lambda>r. raw_iso_alpha r \<noteq> None) rows)"

section \<open>The guards of the PCA view\<close>







section \<open>Example data\<close>

text \<open>Three countries with one indicator \<open>X\<close>, for the ranking scenario.\<close>

definition usa :: row where
  "usa = \<lparr>country_fixed = ''United States'', iso_alpha = ''USA'',
          continent = Some ''North America'', vals = [(''X'', 10)]\<rparr>"

definition can :: row where
  "can = \<lparr>country_fixed = ''Canada'', iso_alpha = ''CAN'',
          continent = Some ''North America'', vals = [(''X'', 20)]\<rparr>"

definition mex :: row where
  "mex = \<lparr>country_fixed = ''Mexico'', iso_alpha = ''MEX'',
          continent = Some ''North America'', vals = [(''X'', 30)]\<rparr>"

text \<open>A click on the point of a country, and a reference that knows two names.\<close>

definition point_of :: "string \<Rightarrow> point" where
  "point_of i = \<lparr>location = Some i, customdata = CdText i\<rparr>"

definition bar_point_of :: "string \<Rightarrow> point" where
  "bar_point_of i = \<lparr>location = None, customdata = CdList [i]\<rparr>"

definition demo_names :: "(string \<times> string) list" where
  "demo_names = [(''CAN'', ''Canada''), (''USA'', ''United States'')]"

text \<open>
  A table with the two indicators \<open>A\<close> and \<open>B\<close> and the constraints
  \<^verbatim>\<open>{A: [0, 10], B: [5, 15]}\<close>: one row outside on \<open>B\<close>, one row inside, and one row
  without a value for \<open>A\<close> and any cell \<open>b\<close> for \<open>B\<close>.
\<close>

definition ab_row :: "string \<Rightarrow> real option \<Rightarrow> real option \<Rightarrow> row" where
  "ab_row n a b =
     \<lparr>country_fixed = n, iso_alpha = n, continent = Some ''Europe'',
      vals = (case a of None \<Rightarrow> [] | Some x \<Rightarrow> [(''A'', x)])
             @ (case b of None \<Rightarrow> [] | Some y \<Rightarrow> [(''B'', y)])\<rparr>"

definition brush_ab :: brush where
  "brush_ab = [(''A'', [0, 10]), (''B'', [5, 15])]"

definition ab_table :: "real option \<Rightarrow> row list" where
  "ab_table b =
     [ab_row ''P'' (Some 5) (Some 20), ab_row ''Q'' (Some 5) (Some 10), ab_row ''R'' None b]"

definition ab_dashboard :: "real option \<Rightarrow> dashboard" where
  "ab_dashboard b =
     \<lparr>sorter = stable_sort_desc, df = ab_table b, num_cols = [''A'', ''B''], ISO_TO_NAME = []\<rparr>"


text \<open>
  A table with a third indicator \<open>C\<close> that carries no constraint: the second row
  meets both constraints and has no value for \<open>C\<close>.
\<close>

definition s_row :: row where
  "s_row = \<lparr>country_fixed = ''S'', iso_alpha = ''S'', continent = Some ''Asia'',
            vals = [(''A'', 5), (''B'', 10), (''C'', 1)]\<rparr>"

definition t_row :: row where
  "t_row = \<lparr>country_fixed = ''T'', iso_alpha = ''T'', continent = Some ''Asia'',
            vals = [(''A'', 5), (''B'', 10)]\<rparr>"

definition abc_dashboard :: dashboard where
  "abc_dashboard =
     \<lparr>sorter = stable_sort_desc, df = [s_row, t_row], num_cols = [''A'', ''B'', ''C''],
      ISO_TO_NAME = []\<rparr>"

text \<open>
  A session on the table with \<open>A\<close> and \<open>B\<close>: the first axis has been brushed to
  \<^verbatim>\<open>[1, 2]\<close>, so the plot holds the payload of that event and the store holds the
  constraint.
\<close>

definition payload_a :: restyle where
  "payload_a = Some [(''dimensions[0].constraintrange'', VNested [[1, 2]])]"

definition st_brushed :: ui_state where
  "st_brushed =
     \<lparr>highlight_country_names = [''Q''], selected_iso_store = [''Q''],
      pc_brush = [(''A'', [1, 2])], region_value = Some ''All'', ind_value = Some ''A'',
      topn_value = TopnNum 10, restyleData = payload_a\<rparr>"

text \<open>
  Two raw names that resolve to the same ISO-3 code, the second with more values,
  and a third country between them.
\<close>

definition congo_short :: "real loaded_row" where
  "congo_short =
     \<lparr>raw_country = ''CONGO, DEMOCRATIC REPUBLIC OF THE'', raw_country_fixed = ''Congo, Dem. Rep.'',
      raw_iso_alpha = Some ''COD'', raw_continent = Some ''Africa'',
      raw_cells = [Some 1, None, None]\<rparr>"

definition congo_full :: "real loaded_row" where
  "congo_full =
     \<lparr>raw_country = ''DEMOCRATIC REPUBLIC OF THE CONGO'', raw_country_fixed = ''Democratic Republic Of The Congo'',
      raw_iso_alpha = Some ''COD'', raw_continent = Some ''Africa'',
      raw_cells = [Some 1, Some 2, Some 3]\<rparr>"

definition gabon :: "real loaded_row" where
  "gabon =
     \<lparr>raw_country = ''GABON'', raw_country_fixed = ''Gabon'',
      raw_iso_alpha = Some ''GAB'', raw_continent = Some ''Africa'',
      raw_cells = [Some 4, Some 5, None]\<rparr>"



section \<open>Properties of the sorting parameter\<close>

lemma stable_sort_desc_sorts: "sorts_descending stable_sort_desc"
proof -
  have "sorted_wrt (\<lambda>a b. key b \<le> key a) (rev (sort_key key (rev xs)))"
    for key :: "'a \<Rightarrow> 'b" and xs
    using sorted_sort_key[of key "rev xs"] by (simp add: sorted_map sorted_wrt_rev)
  then show ?thesis
    by (simp add: sorts_descending_def stable_sort_desc_def)
qed

lemma sorted_desc_unique:
  fixes key :: "'a \<Rightarrow> 'k::linorder"
  assumes inj: "inj_on key (set xs)"
    and ms: "mset ys = mset xs"
    and srt: "sorted_wrt (\<lambda>a b. key b \<le> key a) ys"
  shows "ys = rev (sort_key key xs)"
proof -
  have "sorted (map key (rev ys))"
    using srt by (simp add: sorted_map sorted_wrt_rev)
  moreover have "mset (map key (rev ys)) = mset (map key xs)"
    using ms by simp
  ultimately have "sort (map key xs) = map key (rev ys)"
    by (rule properties_for_sort[rotated])
  moreover have "sort (map key xs) = map key (sort_key key xs)"
    by (rule properties_for_sort) simp_all
  ultimately have "map key (sort_key key xs) = map key (rev ys)"
    by simp
  moreover have "set (sort_key key xs) = set xs" "set (rev ys) = set xs"
    using ms by (auto dest: mset_eq_setD)
  ultimately have "sort_key key xs = rev ys"
    using inj by (simp add: inj_on_map_eq_map)
  then show ?thesis by simp
qed

section \<open>The Top-N ranking\<close>

lemma effective_topn_num:
  "effective_topn (TopnNum x) = Inr (max 3 (min 50 (if x = 0 then 10 else py_trunc x)))"
  by (simp add: effective_topn_def py_trunc_def)

lemma ranking_scenario:
  assumes "sorts_descending srt"
  shows "bar_df srt [usa, can, mex] [''X''] ''X'' 3 = Inr [mex, can, usa]"
proof -
  let ?key = "\<lambda>r. the (cell r ''X'')"
  let ?xs = "[usa, can, mex]"
  have f: "filter (\<lambda>r. cell r ''X'' \<noteq> None) ?xs = ?xs"
    by (simp add: cell_def usa_def can_def mex_def)
  have "inj_on ?key (set ?xs)"
    by (simp add: cell_def usa_def can_def mex_def)
  moreover have "mset (srt ?key ?xs) = mset ?xs"
    "sorted_wrt (\<lambda>a b. ?key b \<le> ?key a) (srt ?key ?xs)"
    using assms by (simp_all add: sorts_descending_def)
  ultimately have "srt ?key ?xs = rev (sort_key ?key ?xs)"
    by (rule sorted_desc_unique)
  also have "\<dots> = [mex, can, usa]"
    by (simp add: cell_def usa_def can_def mex_def)
  finally show ?thesis
    unfolding bar_df_def f by simp
qed

text \<open>
  C8 (amended). An absent Top-N value gives the default 10. A number other than
  zero is truncated towards zero and clamped into the interval from 3 to 50, and
  every absent or numeric value is accepted with a result in that interval. With
  the rows USA 10, CAN 20, MEX 30 on X and Top-N 2, the effective N is 3 and the
  ranking is MEX, CAN, USA, whatever order the sort gives to equal keys.
\<close>

theorem C8_topn_clamped_for_numbers:
  assumes "sorts_descending srt"
  shows "effective_topn TopnNone = Inr 10
    \<and> (\<forall>x. x \<noteq> 0 \<longrightarrow> effective_topn (TopnNum x) = Inr (max 3 (min 50 (py_trunc x))))
    \<and> (\<forall>t. (t = TopnNone \<or> (\<exists>x. t = TopnNum x))
          \<longrightarrow> (\<exists>n. effective_topn t = Inr n \<and> 3 \<le> n \<and> n \<le> 50))
    \<and> rank_block srt [usa, can, mex] [''X''] ''X'' (TopnNum 2) = Inr (3, [mex, can, usa])"
proof -
  have a: "effective_topn TopnNone = Inr 10"
    by (simp add: effective_topn_def py_trunc_def)
  have b: "\<forall>x. x \<noteq> 0 \<longrightarrow> effective_topn (TopnNum x) = Inr (max 3 (min 50 (py_trunc x)))"
    by (simp add: effective_topn_num)
  have c: "\<exists>n. effective_topn t = Inr n \<and> 3 \<le> n \<and> n \<le> 50"
    if "t = TopnNone \<or> (\<exists>x. t = TopnNum x)" for t
    using that a by (auto simp: effective_topn_num)
  have d: "rank_block srt [usa, can, mex] [''X''] ''X'' (TopnNum 2) = Inr (3, [mex, can, usa])"
    using ranking_scenario[OF assms] by (simp add: rank_block_def effective_topn_num py_trunc_def)
  from a b c d show ?thesis by blast
qed

theorem C8_topn_witness:
  "effective_topn (TopnNum 70) = Inr 50
   \<and> rank_block stable_sort_desc [usa, can, mex] [''X''] ''X'' (TopnNum 2) = Inr (3, [mex, can, usa])"
proof -
  have "(70::real) \<noteq> 0" by simp
  then have "effective_topn (TopnNum 70) = Inr (max 3 (min 50 (py_trunc 70)))"
    using C8_topn_clamped_for_numbers[OF stable_sort_desc_sorts] by blast
  then show ?thesis
    using C8_topn_clamped_for_numbers[OF stable_sort_desc_sorts] by (simp add: py_trunc_def)
qed

theorem C8_text_rejected_counterexample:
  "effective_topn (TopnText ''abc'') = Inl ValueError
   \<and> rank_block stable_sort_desc [usa, can, mex] [''X''] ''X'' (TopnText ''abc'') = Inl ValueError"
  by (simp add: rank_block_def effective_topn_def py_int_text_def py_strip_def py_isspace_def
      py_unsigned_def digit_of_def)

section \<open>Click highlighting: toggle and order\<close>

lemma sort_remdups_unique:
  fixes xs ys :: "'a::linorder list"
  assumes "set xs = set ys"
  shows "sort (remdups xs) = sort (remdups ys)"
proof -
  have "sorted (sort (remdups xs))" "distinct (sort (remdups xs))"
    "sorted (sort (remdups ys))" "distinct (sort (remdups ys))"
    by simp_all
  moreover have "set (sort (remdups xs)) = set (sort (remdups ys))"
    using assms by simp
  ultimately show ?thesis
    by (rule sorted_distinct_set_unique)
qed

lemma sort_remdups_id:
  fixes xs :: "'a::linorder list"
  assumes "sorted xs" "distinct xs"
  shows "sort (remdups xs) = xs"
  using assms by (simp add: distinct_remdups_id sort_key_id_if_sorted)

lemma sort_distinct_as_remdups:
  fixes xs :: "'a::linorder list"
  assumes "distinct xs"
  shows "sort xs = sort (remdups xs)"
  using assms by (simp add: distinct_remdups_id)

lemma toggle_iso_distinct:
  assumes "distinct names" "distinct isos" "toggle_iso m i names isos = (names', isos')"
  shows "distinct names' \<and> distinct isos'"
  using assms
  by (auto simp: toggle_iso_def distinct_removeAll split: if_splits option.splits)

lemma toggle_iso_set:
  assumes "toggle_iso m i names isos = (names', isos')"
  shows "set isos' = (if i \<in> set isos then set isos - {i} else insert i (set isos))"
  using assms by (auto simp: toggle_iso_def split: if_splits)

lemma sync_highlights_toggle:
  assumes "clicked_iso trigger mc sc rc pc = Inr (CdText i)" "i \<noteq> []"
  shows "sync_highlights m trigger mc sc rc pc prev_names prev_iso =
     Inr (sort (fst (toggle_iso m i (remdups prev_names) (remdups prev_iso))),
          sort (snd (toggle_iso m i (remdups prev_names) (remdups prev_iso))))"
  using assms by (simp add: sync_highlights_def Let_def split: prod.splits)

lemma sync_highlights_sorted:
  assumes "sync_highlights m trigger mc sc rc pc prev_names prev_iso = Inr (names', isos')"
  shows "sorted names' \<and> distinct names' \<and> sorted isos' \<and> distinct isos'"
proof -
  have d: "distinct (remdups prev_names)" "distinct (remdups prev_iso)" by simp_all
  show ?thesis
    using assms toggle_iso_distinct[OF d]
    by (auto simp: sync_highlights_def Let_def
        split: sum.splits customdata.splits if_splits prod.splits)
qed

lemma click_carries_clicked_iso:
  assumes "click_carries trigger mc sc rc pc i"
  shows "clicked_iso trigger mc sc rc pc = Inr (CdText i)"
  using assms
  by (auto simp: click_carries_def clicked_iso_def py_index_def
      split: option.splits list.splits if_splits customdata.splits)

text \<open>
  C3. A click on the map, the scatter plot, a ranking bar or the PCA plot that
  carries a non-empty ISO-3 code removes the code from the highlighted set when it
  is there and adds it otherwise; all other codes stay, so several countries can be
  highlighted together. A second click on the same code gives back the set from
  before the first click, and the very same list when that list was sorted and free
  of duplicates.
\<close>

theorem C3_click_toggles_membership:
  assumes "click_carries trigger mc sc rc pc i" and "i \<noteq> []"
  shows "\<exists>names1 isos1 names2 isos2.
      sync_highlights m trigger mc sc rc pc prev_names prev_iso = Inr (names1, isos1)
    \<and> set isos1 = (if i \<in> set prev_iso then set prev_iso - {i} else insert i (set prev_iso))
    \<and> sync_highlights m trigger mc sc rc pc names1 isos1 = Inr (names2, isos2)
    \<and> set isos2 = set prev_iso
    \<and> isos2 = sort (remdups prev_iso)
    \<and> (sorted prev_iso \<and> distinct prev_iso \<longrightarrow> isos2 = prev_iso)"
proof -
  note ck = click_carries_clicked_iso[OF assms(1)]
  let ?t1 = "toggle_iso m i (remdups prev_names) (remdups prev_iso)"
  let ?names1 = "sort (fst ?t1)" and ?isos1 = "sort (snd ?t1)"
  let ?t2 = "toggle_iso m i (remdups ?names1) (remdups ?isos1)"
  let ?names2 = "sort (fst ?t2)" and ?isos2 = "sort (snd ?t2)"
  have r1: "sync_highlights m trigger mc sc rc pc prev_names prev_iso = Inr (?names1, ?isos1)"
    by (rule sync_highlights_toggle[OF ck assms(2)])
  have r2: "sync_highlights m trigger mc sc rc pc ?names1 ?isos1 = Inr (?names2, ?isos2)"
    by (rule sync_highlights_toggle[OF ck assms(2)])
  have s1: "set ?isos1 = (if i \<in> set prev_iso then set prev_iso - {i} else insert i (set prev_iso))"
    using toggle_iso_set[of m i "remdups prev_names" "remdups prev_iso" "fst ?t1" "snd ?t1"]
    by simp
  have s2: "set ?isos2 = (if i \<in> set ?isos1 then set ?isos1 - {i} else insert i (set ?isos1))"
    using toggle_iso_set[of m i "remdups ?names1" "remdups ?isos1" "fst ?t2" "snd ?t2"]
    by simp
  have s3: "set ?isos2 = set prev_iso"
    unfolding s2 s1 by auto
  have "distinct (snd ?t2)"
    using toggle_iso_distinct[of "remdups ?names1" "remdups ?isos1" m i "fst ?t2" "snd ?t2"]
    by simp
  then have "?isos2 = sort (remdups (snd ?t2))"
    by (rule sort_distinct_as_remdups)
  also have "\<dots> = sort (remdups prev_iso)"
    using s3 by (intro sort_remdups_unique) simp
  finally have s4: "?isos2 = sort (remdups prev_iso)" .
  have s5: "sorted prev_iso \<and> distinct prev_iso \<longrightarrow> ?isos2 = prev_iso"
    using s4 by (simp add: sort_remdups_id)
  from r1 r2 s1 s3 s4 s5 show ?thesis by blast
qed

theorem C3_toggle_witness:
  "click_carries (Some ''rank'') None None (Some [bar_point_of ''USA'']) None ''USA''
   \<and> sync_highlights demo_names (Some ''rank'') None None (Some [bar_point_of ''USA'']) None
        [''Canada'', ''United States''] [''CAN'', ''USA''] = Inr ([''Canada''], [''CAN''])
   \<and> sync_highlights demo_names (Some ''rank'') None None (Some [bar_point_of ''USA'']) None
        [''Canada''] [''CAN''] = Inr ([''Canada'', ''United States''], [''CAN'', ''USA''])"
proof -
  have c: "click_carries (Some ''rank'') None None (Some [bar_point_of ''USA'']) None ''USA''"
    by (simp add: click_carries_def bar_point_of_def)
  have n: "''USA'' \<noteq> []" by simp
  obtain names1 isos1 names2 isos2 where
    r1: "sync_highlights demo_names (Some ''rank'') None None (Some [bar_point_of ''USA'']) None
        [''Canada'', ''United States''] [''CAN'', ''USA''] = Inr (names1, isos1)"
    and r2: "sync_highlights demo_names (Some ''rank'') None None (Some [bar_point_of ''USA'']) None
        names1 isos1 = Inr (names2, isos2)"
    and rt: "isos2 = sort (remdups [''CAN'', ''USA''])"
    using C3_click_toggles_membership[OF c n, of demo_names "[''Canada'', ''United States'']" "[''CAN'', ''USA'']"]
    by blast
  have e1: "sync_highlights demo_names (Some ''rank'') None None (Some [bar_point_of ''USA'']) None
        [''Canada'', ''United States''] [''CAN'', ''USA''] = Inr ([''Canada''], [''CAN''])"
    by (simp add: sync_highlights_def clicked_iso_def py_index_def bar_point_of_def
        toggle_iso_def demo_names_def)
  with r1 have eq: "names1 = [''Canada'']" "isos1 = [''CAN'']" by simp_all
  have "names2 = [''Canada'', ''United States'']"
    using r2 unfolding eq
    by (simp add: sync_highlights_def clicked_iso_def py_index_def bar_point_of_def
        toggle_iso_def demo_names_def)
  moreover have "isos2 = [''CAN'', ''USA'']"
    using rt by simp
  ultimately show ?thesis
    using c e1 r2 eq by simp
qed

text \<open>
  C10. Whatever the handler returns, both lists are in ascending order and free of
  duplicates, and it does return for every click that carries a non-empty code. A
  click on a code without an entry in the ISO-to-name reference changes the ISO
  list and returns the names unchanged (as a set, and as a list when the stored
  list was sorted and free of duplicates); the last conjunct is such a click,
  after which the lists have lengths 1 and 2.
\<close>

theorem C10_highlight_lists_sorted:
  "(\<forall>names' isos'.
       sync_highlights m trigger mc sc rc pc prev_names prev_iso = Inr (names', isos')
       \<longrightarrow> sorted names' \<and> distinct names' \<and> sorted isos' \<and> distinct isos')
   \<and> (click_carries trigger mc sc rc pc i \<and> i \<noteq> [] \<longrightarrow>
        (\<exists>names' isos'.
           sync_highlights m trigger mc sc rc pc prev_names prev_iso = Inr (names', isos')))
   \<and> (click_carries trigger mc sc rc pc i \<and> i \<noteq> [] \<and> map_of m i = None \<longrightarrow>
        (\<exists>isos'.
           sync_highlights m trigger mc sc rc pc prev_names prev_iso
             = Inr (sort (remdups prev_names), isos')
           \<and> set isos' = (if i \<in> set prev_iso then set prev_iso - {i} else insert i (set prev_iso))
           \<and> set isos' \<noteq> set prev_iso
           \<and> set (sort (remdups prev_names)) = set prev_names
           \<and> (sorted prev_names \<and> distinct prev_names
                \<longrightarrow> sort (remdups prev_names) = prev_names)))
   \<and> sync_highlights demo_names (Some ''map'') (Some [point_of ''XKX'']) None None None
        [''Canada''] [''CAN''] = Inr ([''Canada''], [''CAN'', ''XKX''])"
proof -
  have a: "sorted names' \<and> distinct names' \<and> sorted isos' \<and> distinct isos'"
    if "sync_highlights m trigger mc sc rc pc prev_names prev_iso = Inr (names', isos')"
    for names' isos'
    using that by (rule sync_highlights_sorted)
  have b: "\<exists>names' isos'.
      sync_highlights m trigger mc sc rc pc prev_names prev_iso = Inr (names', isos')"
    if "click_carries trigger mc sc rc pc i \<and> i \<noteq> []"
    using sync_highlights_toggle[OF click_carries_clicked_iso, of trigger mc sc rc pc i] that
    by blast
  have c: "\<exists>isos'.
      sync_highlights m trigger mc sc rc pc prev_names prev_iso
        = Inr (sort (remdups prev_names), isos')
      \<and> set isos' = (if i \<in> set prev_iso then set prev_iso - {i} else insert i (set prev_iso))
      \<and> set isos' \<noteq> set prev_iso
      \<and> set (sort (remdups prev_names)) = set prev_names
      \<and> (sorted prev_names \<and> distinct prev_names \<longrightarrow> sort (remdups prev_names) = prev_names)"
    if h: "click_carries trigger mc sc rc pc i \<and> i \<noteq> [] \<and> map_of m i = None"
  proof -
    let ?t = "toggle_iso m i (remdups prev_names) (remdups prev_iso)"
    have r: "sync_highlights m trigger mc sc rc pc prev_names prev_iso
        = Inr (sort (fst ?t), sort (snd ?t))"
      using h by (intro sync_highlights_toggle click_carries_clicked_iso) simp_all
    have n: "fst ?t = remdups prev_names"
      using h by (simp add: toggle_iso_def)
    have s: "set (sort (snd ?t))
        = (if i \<in> set prev_iso then set prev_iso - {i} else insert i (set prev_iso))"
      using toggle_iso_set[of m i "remdups prev_names" "remdups prev_iso" "fst ?t" "snd ?t"]
      by simp
    have d: "set (sort (snd ?t)) \<noteq> set prev_iso"
      unfolding s by auto
    have k: "sorted prev_names \<and> distinct prev_names \<longrightarrow> sort (remdups prev_names) = prev_names"
      by (simp add: sort_remdups_id)
    from r n s d k show ?thesis by auto
  qed
  have e: "sync_highlights demo_names (Some ''map'') (Some [point_of ''XKX'']) None None None
        [''Canada''] [''CAN''] = Inr ([''Canada''], [''CAN'', ''XKX''])"
    by (simp add: sync_highlights_def clicked_iso_def py_index_def point_of_def
        toggle_iso_def demo_names_def)
  from a b c e show ?thesis by blast
qed

theorem C10_unknown_iso_witness:
  "click_carries (Some ''map'') (Some [point_of ''XKX'']) None None None ''XKX''
   \<and> map_of demo_names ''XKX'' = None
   \<and> sync_highlights demo_names (Some ''map'') (Some [point_of ''XKX'']) None None None
        [''Canada''] [''CAN''] = Inr ([''Canada''], [''CAN'', ''XKX''])
   \<and> sorted [''CAN'', ''XKX''] \<and> distinct [''CAN'', ''XKX'']
   \<and> length [''Canada''] \<noteq> length [''CAN'', ''XKX'']"
proof -
  have c: "click_carries (Some ''map'') (Some [point_of ''XKX'']) None None None ''XKX''"
    by (simp add: click_carries_def point_of_def)
  have u: "map_of demo_names ''XKX'' = None"
    by (simp add: demo_names_def)
  note inst = C10_highlight_lists_sorted[of demo_names "Some ''map''" "Some [point_of ''XKX'']"
      None None None "[''Canada'']" "[''CAN'']" "''XKX''"]
  have r: "sync_highlights demo_names (Some ''map'') (Some [point_of ''XKX'']) None None None
        [''Canada''] [''CAN''] = Inr ([''Canada''], [''CAN'', ''XKX''])"
    using inst by blast
  then have "sorted [''CAN'', ''XKX''] \<and> distinct [''CAN'', ''XKX'']"
    using inst by blast
  with c u r show ?thesis by simp
qed

section \<open>Brushing\<close>

lemma in_range_iff:
  "in_range r col rng = (\<exists>v. cell r col = Some v \<and> rng ! 0 \<le> v \<and> v \<le> rng ! 1)"
  by (simp add: in_range_def split: option.splits)

lemma brushed_mask_general:
  assumes "\<forall>(col, rng)\<in>set nb. length rng = 2 \<longrightarrow> col \<in> set use_cols"
    and "length msk = length sub_df"
  shows "brushed_mask use_cols sub_df nb msk =
     Inr (map2 (\<and>) msk
            (map (\<lambda>r. \<forall>(col, rng)\<in>set nb. length rng = 2 \<longrightarrow> in_range r col rng) sub_df))"
  using assms
proof (induction nb arbitrary: msk)
  case Nil
  then show ?case by (simp add: list_eq_iff_nth_eq)
next
  case (Cons a nb)
  obtain col rng where a: "a = (col, rng)" by (cases a)
  show ?case
  proof (cases "length rng = 2")
    case True
    then have c: "col \<in> set use_cols" using Cons.prems a by simp
    have "brushed_mask use_cols sub_df (a # nb) msk =
        brushed_mask use_cols sub_df nb (map2 (\<and>) msk (map (\<lambda>r. in_range r col rng) sub_df))"
      using True c a by simp
    also have "\<dots> = Inr (map2 (\<and>) (map2 (\<and>) msk (map (\<lambda>r. in_range r col rng) sub_df))
            (map (\<lambda>r. \<forall>(col, rng)\<in>set nb. length rng = 2 \<longrightarrow> in_range r col rng) sub_df))"
      using Cons.prems by (intro Cons.IH) simp_all
    finally show ?thesis
      using True a Cons.prems(2) by (auto simp: list_eq_iff_nth_eq)
  next
    case False
    then show ?thesis
      using Cons a by (auto simp: list_eq_iff_nth_eq)
  qed
qed

lemma tab_mask_general:
  assumes "length msk = length sub_df"
  shows "tab_mask use_cols sub_df nb msk =
     map2 (\<and>) msk
       (map (\<lambda>r. \<forall>(col, rng)\<in>set nb. col \<in> set use_cols \<and> length rng = 2 \<longrightarrow> in_range r col rng)
          sub_df)"
  using assms
proof (induction nb arbitrary: msk)
  case Nil
  then show ?case by (simp add: list_eq_iff_nth_eq)
next
  case (Cons a nb)
  obtain col rng where a: "a = (col, rng)" by (cases a)
  show ?case
  proof (cases "col \<in> set use_cols \<and> length rng = 2")
    case True
    have "tab_mask use_cols sub_df (a # nb) msk =
        tab_mask use_cols sub_df nb (map2 (\<and>) msk (map (\<lambda>r. in_range r col rng) sub_df))"
      using True a by simp
    also have "\<dots> = map2 (\<and>) (map2 (\<and>) msk (map (\<lambda>r. in_range r col rng) sub_df))
         (map (\<lambda>r. \<forall>(col, rng)\<in>set nb. col \<in> set use_cols \<and> length rng = 2 \<longrightarrow> in_range r col rng) sub_df)"
      using Cons.prems by (intro Cons.IH) simp_all
    finally show ?thesis
      using True a Cons.prems by (auto simp: list_eq_iff_nth_eq)
  next
    case False
    then show ?thesis
      using Cons a by (auto simp: list_eq_iff_nth_eq)
  qed
qed

lemma map2_replicate_True:
  "map2 (\<and>) (replicate (length xs) True) (map P xs) = map P xs"
  by (simp add: list_eq_iff_nth_eq)

lemma ab_cells:
  "cell (ab_row n a b) ''A'' = a"
  "cell (ab_row n a b) ''B'' = b"
  "country_fixed (ab_row n a b) = n"
  "iso_alpha (ab_row n a b) = n"
  "continent (ab_row n a b) = Some ''Europe''"
  by (simp_all add: ab_row_def cell_def split: option.splits)

lemma ab_masks:
  "brushed_mask [''A'', ''B''] (ab_table b) brush_ab (replicate 3 True) = Inr [False, True, False]"
  "tab_mask [''A'', ''B''] (ab_table b) brush_ab (replicate 3 True) = [False, True, False]"
  by (simp_all add: ab_table_def ab_cells brush_ab_def in_range_def numeral_3_eq_3)

lemma ab_dropna:
  "dropna_rows [''A'', ''B''] (ab_table b) =
     [ab_row ''P'' (Some 5) (Some 20), ab_row ''Q'' (Some 5) (Some 10)]"
  by (simp add: ab_table_def ab_cells dropna_rows_def)

lemma ab_parcoords:
  "\<exists>fig. parcoords_block (ab_table b) [''A'', ''B''] [] brush_ab = Inr (Some fig, [bullet @ ''Q''])"
  by (simp add: parcoords_block_def ab_dropna ab_cells brush_ab_def in_range_def any_values_def
      select_rows_def Let_def)

lemma ab_tab:
  "update_countries_tab (ab_dashboard b) None (Some []) brush_ab (Some ''All'') =
     [BrushedHeader, BrushedTable [(ab_row ''Q'' (Some 5) (Some 10), False)], BrushedSummary 1 1]"
  by (simp add: update_countries_tab_def ab_dashboard_def region_filter_def tab_selected_def
      tab_brushed_def tab_sub_def use_cols_of_def ab_dropna ab_cells brush_ab_def in_range_def
      select_rows_def)

lemma ab_analytics:
  "\<exists>out. analytics (ab_dashboard b) (Some ''A'') (Some ''All'') TopnNone None None [] brush_ab = Inr out
     \<and> local_brush_list out = Some (BrushedCountries [''Brushed countries:'', bullet @ ''Q''])"
proof -
  obtain fig where f: "parcoords_block (ab_table b) [''A'', ''B''] [] brush_ab = Inr (Some fig, [bullet @ ''Q''])"
    using ab_parcoords by blast
  show ?thesis
    by (simp add: analytics_def ab_dashboard_def region_filter_def py_falsy_text_def build_rank_def
       rank_block_def effective_topn_def py_trunc_def bar_df_def new_brush_state_def parse_brush_def
       use_cols_of_def f brush_list_def)
qed

text \<open>
  C1. For every table and every non-empty brush mapping whose keys are indicator
  columns and whose values are pairs (lo, hi), both mask loops (the one of the
  analytics pass and the one of the countries tab) mark a row exactly when, for
  every constrained axis, the row has a value on that axis and the value lies in
  the closed interval from lo to hi. Under \<^verbatim>\<open>{A: [0, 10], B: [5, 15]}\<close> the row with
  A=5, B=20 is excluded, the row with A=5, B=10 is included, and the row without A
  is excluded whatever its B is; the brushed names of the analytics pass and the
  table of the countries tab show exactly the second row.
\<close>

theorem C1_brush_conjunction:
  assumes "nb \<noteq> []"
    and "\<forall>(col, rng)\<in>set nb. col \<in> set use_cols \<and> length rng = 2"
  shows "brushed_mask use_cols sub_df nb (replicate (length sub_df) True) =
       Inr (map (\<lambda>r. \<forall>(col, rng)\<in>set nb.
                    \<exists>v. cell r col = Some v \<and> rng ! 0 \<le> v \<and> v \<le> rng ! 1) sub_df)
    \<and> tab_mask use_cols sub_df nb (replicate (length sub_df) True) =
       map (\<lambda>r. \<forall>(col, rng)\<in>set nb.
               \<exists>v. cell r col = Some v \<and> rng ! 0 \<le> v \<and> v \<le> rng ! 1) sub_df
    \<and> (\<forall>b. brushed_mask [''A'', ''B''] (ab_table b) brush_ab (replicate 3 True) =
             Inr [False, True, False])
    \<and> (\<forall>b. tab_mask [''A'', ''B''] (ab_table b) brush_ab (replicate 3 True) =
             [False, True, False])
    \<and> (\<forall>b. \<exists>out.
          analytics (ab_dashboard b) (Some ''A'') (Some ''All'') TopnNone None None [] brush_ab
            = Inr out
          \<and> local_brush_list out = Some (BrushedCountries [''Brushed countries:'', bullet @ ''Q'']))
    \<and> (\<forall>b. update_countries_tab (ab_dashboard b) None (Some []) brush_ab (Some ''All'') =
          [BrushedHeader, BrushedTable [(ab_row ''Q'' (Some 5) (Some 10), False)],
           BrushedSummary 1 1])"
proof -
  let ?P = "\<lambda>r. \<forall>(col, rng)\<in>set nb. \<exists>v. cell r col = Some v \<and> rng ! 0 \<le> v \<and> v \<le> rng ! 1"
  have p1: "(\<lambda>r. \<forall>(col, rng)\<in>set nb. length rng = 2 \<longrightarrow> in_range r col rng) = ?P"
    using assms(2) by (auto simp: in_range_iff fun_eq_iff)
  have p2: "(\<lambda>r. \<forall>(col, rng)\<in>set nb. col \<in> set use_cols \<and> length rng = 2 \<longrightarrow> in_range r col rng) = ?P"
    using assms(2) by (auto simp: in_range_iff fun_eq_iff)
  have k: "\<forall>(col, rng)\<in>set nb. length rng = 2 \<longrightarrow> col \<in> set use_cols"
    using assms(2) by auto
  have a: "brushed_mask use_cols sub_df nb (replicate (length sub_df) True) = Inr (map ?P sub_df)"
    using brushed_mask_general[OF k, of "replicate (length sub_df) True" sub_df]
    by (simp only: p1 map2_replicate_True length_replicate)
  have b: "tab_mask use_cols sub_df nb (replicate (length sub_df) True) = map ?P sub_df"
    using tab_mask_general[of "replicate (length sub_df) True" sub_df use_cols nb]
    by (simp only: p2 map2_replicate_True length_replicate)
  from a b ab_masks ab_analytics ab_tab show ?thesis by blast
qed

theorem C1_brush_witness:
  "brush_ab \<noteq> []
   \<and> brushed_mask [''A'', ''B''] (ab_table (Some 7)) brush_ab (replicate 3 True)
       = Inr [False, True, False]
   \<and> map (\<lambda>r. \<forall>(col, rng)\<in>set brush_ab.
               \<exists>v. cell r col = Some v \<and> rng ! 0 \<le> v \<and> v \<le> rng ! 1) (ab_table (Some 7))
       = [False, True, False]"
proof -
  have n: "brush_ab \<noteq> []"
    by (simp add: brush_ab_def)
  have w: "\<forall>(col, rng)\<in>set brush_ab. col \<in> set [''A'', ''B''] \<and> length rng = 2"
    by (simp add: brush_ab_def)
  have l: "length (ab_table (Some 7)) = 3"
    by (simp add: ab_table_def)
  note inst = C1_brush_conjunction[OF n w, of "ab_table (Some 7)", unfolded l]
  have m: "brushed_mask [''A'', ''B''] (ab_table (Some 7)) brush_ab (replicate 3 True)
       = Inr [False, True, False]"
    using inst by blast
  moreover have "brushed_mask [''A'', ''B''] (ab_table (Some 7)) brush_ab (replicate 3 True) =
       Inr (map (\<lambda>r. \<forall>(col, rng)\<in>set brush_ab.
                    \<exists>v. cell r col = Some v \<and> rng ! 0 \<le> v \<and> v \<le> rng ! 1) (ab_table (Some 7)))"
    using inst by blast
  ultimately show ?thesis
    using n by simp
qed


lemma select_rows_subset: "set (select_rows sub_df msk) \<subseteq> set sub_df"
  by (auto simp: select_rows_def dest: set_zip_leftD)

lemma analytics_parcoords_block:
  assumes "analytics d ind region topn pc_restyle trigger sel pc_brush_state = Inr out"
    and "\<not> py_falsy_text ind"
  shows "\<exists>names. parcoords_block (region_filter region (df d)) (use_cols_of (num_cols d)) sel
            (pc_brush_out out) = Inr (parcoords_out out, names)
          \<and> local_brush_list out = Some (brush_list names)
          \<and> pc_brush_out out = new_brush_state (num_cols d) pc_restyle trigger pc_brush_state"
  using assms
  by (auto simp: analytics_def Let_def split: sum.splits prod.splits if_splits)

lemma parcoords_block_no_brush:
  "\<exists>fig. parcoords_block base use_cols sel [] = Inr (fig, [])
      \<and> (\<forall>f. fig = Some f \<longrightarrow> (\<forall>dm\<in>set (dimensions f). dim_constraintrange dm = None))"
  by (simp add: parcoords_block_def Let_def any_values_def dim_config_def)



lemma tab_selected_items:
  "x \<in> set (tab_selected base si store) \<Longrightarrow>
     (\<exists>ns. x = SelectedCountries ns) \<or> (\<exists>n. x = SelectedCountry n)"
  by (auto simp: tab_selected_def Let_def split: option.splits if_splits list.splits)


lemma dropna_rows_idem: "dropna_rows cols (dropna_rows cols base) = dropna_rows cols base"
  by (simp add: dropna_rows_def)

lemma dropna_rows_complete:
  "r \<in> set (dropna_rows cols base) \<longleftrightarrow> r \<in> set base \<and> (\<forall>c\<in>set cols. cell r c \<noteq> None)"
  by (auto simp: dropna_rows_def list_all_iff)

lemma tab_sub_dropna: "tab_sub (dropna_rows cols base) cols = tab_sub base cols"
  by (simp add: tab_sub_def dropna_rows_idem)

lemma tab_sub_subset: "set (tab_sub base cols) \<subseteq> set (dropna_rows cols base)"
  by (auto simp: tab_sub_def)

lemma parcoords_block_figure:
  assumes "parcoords_block base use_cols sel nb = Inr (Some f, names)"
  shows "(\<forall>dm\<in>set (dimensions f).
            dim_values dm = map (\<lambda>r. the (cell r (dim_col dm))) (dropna_rows use_cols base))
       \<and> line_color f = map (\<lambda>r. if iso_alpha r \<in> set sel then 1 else 0) (dropna_rows use_cols base)
       \<and> set names \<subseteq> (\<lambda>r. bullet @ country_fixed r) ` set (dropna_rows use_cols base)"
proof -
  let ?S = "dropna_rows use_cols base"
  from assms have g: "2 \<le> length use_cols" "?S \<noteq> []"
    by (auto simp: parcoords_block_def Let_def split: if_splits)
  then obtain msk where m: "brushed_mask use_cols ?S nb (replicate (length ?S) True) = Inr msk"
    using assms by (auto simp: parcoords_block_def Let_def split: sum.splits)
  have f: "f = \<lparr>line_color = map (\<lambda>r. if iso_alpha r \<in> set sel then 1 else 0) ?S,
            dimensions = map (dim_config ?S nb) use_cols\<rparr>"
    using assms g m by (simp add: parcoords_block_def Let_def)
  have n: "names = (if list_ex (\<lambda>b. b) msk \<and> any_values nb
             then map (\<lambda>r. bullet @ country_fixed r) (take 40 (select_rows ?S msk))
             else [])"
    using assms g m by (simp add: parcoords_block_def Let_def)
  have "set (take 40 (select_rows (dropna_rows use_cols base) msk)) \<subseteq> set (dropna_rows use_cols base)"
    using select_rows_subset set_take_subset by fastforce
  then have "set names \<subseteq> (\<lambda>r. bullet @ country_fixed r) ` set (dropna_rows use_cols base)"
    unfolding n by auto
  then show ?thesis
    unfolding f by (auto simp: dim_config_def Let_def)
qed

lemma parcoords_block_names_fig:
  assumes "parcoords_block base use_cols sel nb = Inr (fig, names)" and "names \<noteq> []"
  shows "fig \<noteq> None"
  using assms by (auto simp: parcoords_block_def Let_def split: if_splits sum.splits)

lemma tab_brushed_rows:
  assumes "BrushedTable t \<in> set (tab_brushed base use_cols store nb)"
  shows "fst ` set t \<subseteq> set (dropna_rows use_cols base)"
proof -
  from assms have "\<exists>msk sel_isos.
      t = map (\<lambda>r. (r, iso_alpha r \<in> set sel_isos)) (take 40 (select_rows (tab_sub base use_cols) msk))"
    by (auto simp: tab_brushed_def Let_def split: if_splits option.splits)
  then obtain msk sel_isos where
    "t = map (\<lambda>r. (r, iso_alpha r \<in> set sel_isos)) (take 40 (select_rows (tab_sub base use_cols) msk))"
    by blast
  moreover have "set (take 40 (select_rows (tab_sub base use_cols) msk)) \<subseteq> set (tab_sub base use_cols)"
    using select_rows_subset set_take_subset by fastforce
  ultimately show ?thesis
    using tab_sub_subset[of base use_cols] by auto
qed

text \<open>
  C9. The parallel-coordinates figure, the brushed names of the analytics pass and
  the brushed table of the countries tab are computed from the rows that have a
  value in every indicator column: a row with a missing value in any of them, also
  in a column without a constraint, is on no axis and in no brushed result, and
  removing such rows from the table beforehand changes neither block.
\<close>

theorem C9_incomplete_rows_dropped:
  fixes d :: dashboard
  defines "B \<equiv> \<lambda>region. region_filter region (df d)"
    and "U \<equiv> use_cols_of (num_cols d)"
  shows "(\<forall>r\<in>set (B region). (\<exists>c\<in>set U. cell r c = None) \<longrightarrow> r \<notin> set (dropna_rows U (B region)))
    \<and> (\<forall>out f. analytics d ind region topn pc_restyle trigger sel pc_brush_state = Inr out
            \<and> parcoords_out out = Some f
          \<longrightarrow> (\<forall>dm\<in>set (dimensions f).
                  dim_values dm = map (\<lambda>r. the (cell r (dim_col dm))) (dropna_rows U (B region)))
              \<and> line_color f =
                  map (\<lambda>r. if iso_alpha r \<in> set sel then 1 else 0) (dropna_rows U (B region)))
    \<and> (\<forall>out ns. analytics d ind region topn pc_restyle trigger sel pc_brush_state = Inr out
            \<and> local_brush_list out = Some (BrushedCountries ns)
          \<longrightarrow> set (tl ns) \<subseteq> (\<lambda>r. bullet @ country_fixed r) ` set (dropna_rows U (B region)))
    \<and> (\<forall>t. BrushedTable t \<in> set (update_countries_tab d si store nb region)
          \<longrightarrow> fst ` set t \<subseteq> set (dropna_rows U (B region)))
    \<and> parcoords_block (B region) U sel nb = parcoords_block (dropna_rows U (B region)) U sel nb
    \<and> tab_brushed (B region) U store nb = tab_brushed (dropna_rows U (B region)) U store nb"
proof -
  have c1: "\<forall>r\<in>set (B region). (\<exists>c\<in>set U. cell r c = None) \<longrightarrow> r \<notin> set (dropna_rows U (B region))"
    by (auto simp: dropna_rows_complete)
  have link: "\<exists>names. parcoords_block (B region) U sel (pc_brush_out out) = Inr (parcoords_out out, names)
          \<and> local_brush_list out = Some (brush_list names)"
    if "analytics d ind region topn pc_restyle trigger sel pc_brush_state = Inr out"
      "\<not> py_falsy_text ind" for out
    using analytics_parcoords_block[OF that] unfolding B_def U_def by blast
  have early: "parcoords_out out = None \<and> local_brush_list out = None"
    if "analytics d ind region topn pc_restyle trigger sel pc_brush_state = Inr out"
      "py_falsy_text ind" for out
    using that by (auto simp: analytics_def)
  have c2: "(\<forall>dm\<in>set (dimensions f).
                  dim_values dm = map (\<lambda>r. the (cell r (dim_col dm))) (dropna_rows U (B region)))
              \<and> line_color f =
                  map (\<lambda>r. if iso_alpha r \<in> set sel then 1 else 0) (dropna_rows U (B region))"
    if h: "analytics d ind region topn pc_restyle trigger sel pc_brush_state = Inr out
            \<and> parcoords_out out = Some f" for out f
  proof -
    have nf: "\<not> py_falsy_text ind" using early h by force
    then obtain names where
      "parcoords_block (B region) U sel (pc_brush_out out) = Inr (Some f, names)"
      using link h by force
    from parcoords_block_figure[OF this] show ?thesis by blast
  qed
  have c3: "set (tl ns) \<subseteq> (\<lambda>r. bullet @ country_fixed r) ` set (dropna_rows U (B region))"
    if h: "analytics d ind region topn pc_restyle trigger sel pc_brush_state = Inr out
            \<and> local_brush_list out = Some (BrushedCountries ns)" for out ns
  proof -
    have nf: "\<not> py_falsy_text ind" using early h by force
    then obtain names where n:
      "parcoords_block (B region) U sel (pc_brush_out out) = Inr (parcoords_out out, names)"
      "local_brush_list out = Some (brush_list names)"
      using link h by force
    then have ns: "ns = ''Brushed countries:'' # names" and ne: "names \<noteq> []"
      using h by (auto simp: brush_list_def split: if_splits)
    then obtain f where "parcoords_out out = Some f"
      using parcoords_block_names_fig[OF n(1)] by auto
    with n(1) have "parcoords_block (B region) U sel (pc_brush_out out) = Inr (Some f, names)"
      by simp
    from parcoords_block_figure[OF this] show ?thesis
      unfolding ns by simp
  qed
  have c4: "fst ` set t \<subseteq> set (dropna_rows U (B region))"
    if h: "BrushedTable t \<in> set (update_countries_tab d si store nb region)" for t
  proof -
    have "BrushedTable t \<notin> set (tab_selected (B region) si store)"
      using tab_selected_items[of "BrushedTable t" "B region" si store] by auto
    then have "BrushedTable t \<in> set (tab_brushed (B region) U store nb)"
      using h by (auto simp: update_countries_tab_def Let_def B_def U_def split: if_splits)
    then show ?thesis by (rule tab_brushed_rows)
  qed
  have c5: "parcoords_block (B region) U sel nb = parcoords_block (dropna_rows U (B region)) U sel nb"
    by (simp add: parcoords_block_def dropna_rows_idem)
  have c6: "tab_brushed (B region) U store nb = tab_brushed (dropna_rows U (B region)) U store nb"
    by (simp add: tab_brushed_def tab_sub_dropna)
  from c1 c2 c3 c4 c5 c6 show ?thesis by blast
qed



theorem C9_missing_unconstrained_witness:
  "t_row \<in> set (region_filter (Some ''All'') (df abc_dashboard))
   \<and> ''C'' \<in> set (use_cols_of (num_cols abc_dashboard))
   \<and> cell t_row ''C'' = None \<and> cell t_row ''A'' = Some 5 \<and> cell t_row ''B'' = Some 10
   \<and> t_row \<notin> set (dropna_rows (use_cols_of (num_cols abc_dashboard))
                     (region_filter (Some ''All'') (df abc_dashboard)))
   \<and> update_countries_tab abc_dashboard None (Some []) brush_ab (Some ''All'')
       = [BrushedHeader, BrushedTable [(s_row, False)], BrushedSummary 1 1]"
proof -
  have m: "t_row \<in> set (region_filter (Some ''All'') (df abc_dashboard))"
    by (simp add: abc_dashboard_def region_filter_def)
  have u: "''C'' \<in> set (use_cols_of (num_cols abc_dashboard))"
    by (simp add: abc_dashboard_def use_cols_of_def)
  have c: "cell t_row ''C'' = None" "cell t_row ''A'' = Some 5" "cell t_row ''B'' = Some 10"
    by (simp_all add: t_row_def cell_def)
  have "\<exists>c\<in>set (use_cols_of (num_cols abc_dashboard)). cell t_row c = None"
    using u c(1) by blast
  then have n: "t_row \<notin> set (dropna_rows (use_cols_of (num_cols abc_dashboard))
                     (region_filter (Some ''All'') (df abc_dashboard)))"
    using m C9_incomplete_rows_dropped[where d = abc_dashboard and region = "Some ''All''",
        THEN conjunct1]
    by blast
  have t: "update_countries_tab abc_dashboard None (Some []) brush_ab (Some ''All'')
       = [BrushedHeader, BrushedTable [(s_row, False)], BrushedSummary 1 1]"
    by (simp add: update_countries_tab_def abc_dashboard_def region_filter_def tab_selected_def
        tab_brushed_def tab_sub_def use_cols_of_def dropna_rows_def brush_ab_def in_range_def
        select_rows_def cell_def s_row_def t_row_def)
  from m u c n t show ?thesis by simp
qed

section \<open>Reset and region change\<close>

lemma build_rank_reset: "build_rank (Some ''reset-parcoords'') = False"
  by (simp add: build_rank_def rank_inputs_def)

lemma analytics_reset:
  "\<exists>out. analytics d ind region topn pc_restyle (Some ''reset-parcoords'') sel pc_brush_state = Inr out
     \<and> pc_brush_out out = []"
proof (cases "py_falsy_text ind")
  case True
  then show ?thesis by (simp add: analytics_def)
next
  case False
  obtain fig where "parcoords_block (region_filter region (df d)) (use_cols_of (num_cols d)) sel []
      = Inr (fig, [])"
    using parcoords_block_no_brush by blast
  then show ?thesis
    using False by (simp add: analytics_def build_rank_reset new_brush_state_def)
qed

text \<open>
  C4. From every state, a click on the reset button leaves the brush mapping empty
  and the two highlight stores as they were: the analytics pass triggered by the
  button always returns, with the empty mapping for the brush store.
\<close>

theorem C4_reset_clears_brush:
  "pc_brush (reset_event d st) = []
   \<and> highlight_country_names (reset_event d st) = highlight_country_names st
   \<and> selected_iso_store (reset_event d st) = selected_iso_store st
   \<and> (\<exists>out. analytics d ind region topn pc_restyle (Some ''reset-parcoords'') sel pc_brush_state
              = Inr out \<and> pc_brush_out out = [])"
proof -
  obtain out where
    "analytics d (ind_value st) (region_value st) (topn_value st) (restyleData st)
       (Some ''reset-parcoords'') (selected_iso_store st) (pc_brush st) = Inr out"
    "pc_brush_out out = []"
    using analytics_reset by blast
  then have "reset_event d st = st\<lparr>pc_brush := []\<rparr>"
    by (simp add: reset_event_def run_analytics_def)
  then show ?thesis
    using analytics_reset by simp
qed

theorem C4_reset_witness:
  "pc_brush st_brushed = [(''A'', [1, 2])]
   \<and> pc_brush (reset_event (ab_dashboard (Some 7)) st_brushed) = []
   \<and> selected_iso_store (reset_event (ab_dashboard (Some 7)) st_brushed) = [''Q'']
   \<and> highlight_country_names (reset_event (ab_dashboard (Some 7)) st_brushed) = [''Q'']"
  using C4_reset_clears_brush[of "ab_dashboard (Some 7)" st_brushed]
  by (simp add: st_brushed_def)









section \<open>Loading: the fuller duplicate stays\<close>

lemma drop_duplicates_iso_subset: "set (drop_duplicates_iso ys) \<subseteq> set ys"
  by (induction ys rule: drop_duplicates_iso.induct) auto

lemma drop_duplicates_iso_filter:
  "filter (\<lambda>r. raw_iso_alpha r = k) (drop_duplicates_iso ys)
     = take 1 (filter (\<lambda>r. raw_iso_alpha r = k) ys)"
proof (induction ys rule: drop_duplicates_iso.induct)
  case 1
  then show ?case by simp
next
  case (2 r rs)
  let ?rest = "filter (\<lambda>q. raw_iso_alpha q \<noteq> raw_iso_alpha r) rs"
  show ?case
  proof (cases "raw_iso_alpha r = k")
    case True
    have "filter (\<lambda>r. raw_iso_alpha r = k) ?rest = []"
      using True by (auto simp: filter_empty_conv)
    then have "filter (\<lambda>r. raw_iso_alpha r = k) (drop_duplicates_iso ?rest) = []"
      using "2.IH" by simp
    then show ?thesis using True by simp
  next
    case False
    have "filter (\<lambda>r. raw_iso_alpha r = k) ?rest = filter (\<lambda>r. raw_iso_alpha r = k) rs"
      using False by (auto intro: filter_cong)
    then show ?thesis using False "2.IH" by simp
  qed
qed

lemma dedup_keeps_a_fullest_row:
  assumes srt: "sorts_descending srt"
    and r1: "r1 \<in> set rows" "raw_iso_alpha r1 = Some i"
  shows "\<exists>k. filter (\<lambda>r. raw_iso_alpha r = Some i) (dedup_by_data_count srt rows) = [k]
           \<and> k \<in> set rows \<and> raw_iso_alpha k = Some i \<and> data_count r1 \<le> data_count k"
proof -
  let ?xs = "filter (\<lambda>r. raw_iso_alpha r \<noteq> None) rows"
  let ?ys = "srt data_count ?xs"
  let ?P = "\<lambda>r. raw_iso_alpha r = Some i"
  have ms: "mset ?ys = mset ?xs" and so: "sorted_wrt (\<lambda>a b. data_count b \<le> data_count a) ?ys"
    using srt by (simp_all add: sorts_descending_def)
  have st: "set ?ys = set ?xs"
    using ms by (rule mset_eq_setD)
  have "r1 \<in> set (filter ?P ?ys)"
    using r1 st by simp
  then have "filter ?P ?ys \<noteq> []"
    by (metis empty_iff empty_set)
  then obtain k rest where kr: "filter ?P ?ys = k # rest"
    by (cases "filter ?P ?ys") simp_all
  have "sorted_wrt (\<lambda>a b. data_count b \<le> data_count a) (filter ?P ?ys)"
    using so by (rule sorted_wrt_filter)
  then have le: "\<forall>y\<in>set rest. data_count y \<le> data_count k"
    unfolding kr by simp
  have "r1 = k \<or> r1 \<in> set rest"
    using \<open>r1 \<in> set (filter ?P ?ys)\<close> unfolding kr by simp
  then have c: "data_count r1 \<le> data_count k"
    using le by auto
  have "k \<in> set (filter ?P ?ys)"
    unfolding kr by simp
  then have m: "k \<in> set rows" "raw_iso_alpha k = Some i"
    using st by auto
  have "filter ?P (dedup_by_data_count srt rows) = [k]"
    unfolding dedup_by_data_count_def drop_duplicates_iso_filter kr by simp
  with m c show ?thesis by blast
qed

text \<open>
  C6. When two rows of the frame resolve to the same ISO-3 code and one has more
  non-missing values than the other, the loader discards the row with fewer
  values; one row of that code stays, with at least as many values as the fuller
  of the two, and it is the fuller row itself when the two are the only rows of
  that code. This holds for every order the sort gives to rows with equal counts.
\<close>

theorem C6_more_complete_row_kept:
  assumes "sorts_descending srt"
    and "r1 \<in> set rows" and "r2 \<in> set rows"
    and "raw_iso_alpha r1 = Some i" and "raw_iso_alpha r2 = Some i"
    and "data_count r2 < data_count r1"
  shows "r2 \<notin> set (dedup_by_data_count srt rows)
    \<and> (\<exists>k. filter (\<lambda>r. raw_iso_alpha r = Some i) (dedup_by_data_count srt rows) = [k]
           \<and> k \<in> set rows \<and> data_count r1 \<le> data_count k)
    \<and> ((\<forall>r\<in>set rows. raw_iso_alpha r = Some i \<longrightarrow> r = r1 \<or> r = r2)
         \<longrightarrow> filter (\<lambda>r. raw_iso_alpha r = Some i) (dedup_by_data_count srt rows) = [r1]
             \<and> r1 \<in> set (dedup_by_data_count srt rows))"
proof -
  obtain k where k: "filter (\<lambda>r. raw_iso_alpha r = Some i) (dedup_by_data_count srt rows) = [k]"
    "k \<in> set rows" "raw_iso_alpha k = Some i" "data_count r1 \<le> data_count k"
    using dedup_keeps_a_fullest_row[OF assms(1,2,4)] by blast
  have ne: "k \<noteq> r2"
    using k(4) assms(6) by auto
  have a: "r2 \<notin> set (dedup_by_data_count srt rows)"
  proof
    assume "r2 \<in> set (dedup_by_data_count srt rows)"
    then have "r2 \<in> set (filter (\<lambda>r. raw_iso_alpha r = Some i) (dedup_by_data_count srt rows))"
      using assms(5) by simp
    then show False
      unfolding k(1) using ne by simp
  qed
  have c: "filter (\<lambda>r. raw_iso_alpha r = Some i) (dedup_by_data_count srt rows) = [r1]
         \<and> r1 \<in> set (dedup_by_data_count srt rows)"
    if "\<forall>r\<in>set rows. raw_iso_alpha r = Some i \<longrightarrow> r = r1 \<or> r = r2"
  proof -
    have e: "k = r1" using that k(2,3) ne by blast
    have "k \<in> set (filter (\<lambda>r. raw_iso_alpha r = Some i) (dedup_by_data_count srt rows))"
      unfolding k(1) by simp
    then have "k \<in> set (dedup_by_data_count srt rows)"
      by simp
    then show ?thesis using k(1) e by simp
  qed
  from a k c show ?thesis by blast
qed

theorem C6_congo_witness:
  "data_count congo_short < data_count congo_full
   \<and> filter (\<lambda>r. raw_iso_alpha r = Some ''COD'')
        (dedup_by_data_count stable_sort_desc [congo_short, gabon, congo_full]) = [congo_full]
   \<and> congo_short \<notin> set (dedup_by_data_count stable_sort_desc [congo_short, gabon, congo_full])"
proof -
  have c: "data_count congo_short < data_count congo_full"
    by (simp add: data_count_def congo_short_def congo_full_def)
  have o: "\<forall>r\<in>set [congo_short, gabon, congo_full].
      raw_iso_alpha r = Some ''COD'' \<longrightarrow> r = congo_full \<or> r = congo_short"
    by (simp add: gabon_def)
  have i: "raw_iso_alpha congo_full = Some ''COD''" "raw_iso_alpha congo_short = Some ''COD''"
    by (simp_all add: congo_short_def congo_full_def)
  have m: "congo_full \<in> set [congo_short, gabon, congo_full]"
    "congo_short \<in> set [congo_short, gabon, congo_full]"
    by simp_all
  show ?thesis
    using C6_more_complete_row_kept[OF stable_sort_desc_sorts m i c] o c by blast
qed

text \<open>The older copy keeps the row that comes first in the file instead.\<close>

lemma older_copy_keeps_first_row:
  "dedup_first_seen [congo_short, gabon, congo_full] = [congo_short, gabon]"
  by (simp add: dedup_first_seen_def congo_short_def congo_full_def gabon_def)

section \<open>The guards of the PCA view\<close>












end
